theory Spec2Isabelle
  imports Main
begin

section \<open>The element tree of \<open>xml.etree.ElementTree\<close>\<close>

text \<open>
  An \<open>ET.Element\<close> has a tag, a dictionary of attributes, an optional text and an
  ordered list of children. Tags and attribute keys of namespaced names are stored
  by ElementTree in the expanded form \<open>{uri}local\<close>. A character of a Python
  \<open>str\<close> is a code point; the model keeps the code points below 256.
\<close>

datatype element =
  Element (tag: string) (attrib: "string \<rightharpoonup> string")
    (elem_text: "string option") (children: "element list")

definition NS_ss :: string where
  "NS_ss = ''urn:schemas-microsoft-com:office:spreadsheet''"

definition qname :: "string \<Rightarrow> string" where
  "qname local_name = ''{'' @ NS_ss @ ''}'' @ local_name"

text \<open>\<open>elem.find("ss:X", NS)\<close>: the first direct child with tag \<open>{uri}X\<close>, or \<open>None\<close>.\<close>

definition find_el :: "string \<Rightarrow> element \<Rightarrow> element option" where
  "find_el local_name e = List.find (\<lambda>c. tag c = qname local_name) (children e)"

text \<open>\<open>elem.findall("ss:X", NS)\<close>: all direct children with tag \<open>{uri}X\<close>, in order.\<close>

definition findall :: "string \<Rightarrow> element \<Rightarrow> element list" where
  "findall local_name e = filter (\<lambda>c. tag c = qname local_name) (children e)"

text \<open>\<open>cell.get("{uri}Index")\<close>: the attribute's value, or \<open>None\<close>.\<close>

definition get_attr :: "element \<Rightarrow> string \<Rightarrow> string option" where
  "get_attr e key = attrib e key"

section \<open>Builtins: \<open>str.strip\<close> and \<open>int\<close>\<close>

text \<open>The code points below 256 for which \<open>str.isspace\<close> holds.\<close>

definition py_isspace :: "char \<Rightarrow> bool" where
  "py_isspace c =
     (let n = (of_char c :: nat)
      in (9 \<le> n \<and> n \<le> 13) \<or> (28 \<le> n \<and> n \<le> 32) \<or> n = 133 \<or> n = 160)"

definition strip :: "string \<Rightarrow> string" where
  "strip s = rev (dropWhile py_isspace (rev (dropWhile py_isspace s)))"

datatype py_error = ValueError

text \<open>
  \<open>int(s)\<close> on a string, base 10: surrounding whitespace is skipped (here the file
  separators 28 to 31 do not count as whitespace), then an optional sign, then
  decimal digits in which single underscores may stand between two digits.
  Anything else raises \<open>ValueError\<close>, and so does a literal of more than
  \<open>int_max_str_digits\<close> digits (the interpreter's default limit).
\<close>

definition int_isspace :: "char \<Rightarrow> bool" where
  "int_isspace c =
     (let n = (of_char c :: nat)
      in (9 \<le> n \<and> n \<le> 13) \<or> n = 32 \<or> n = 133 \<or> n = 160)"

definition is_digit :: "char \<Rightarrow> bool" where
  "is_digit c = (let n = (of_char c :: nat) in 48 \<le> n \<and> n \<le> 57)"

definition digit_val :: "char \<Rightarrow> int" where
  "digit_val c = int (of_char c) - 48"

definition int_max_str_digits :: nat where
  "int_max_str_digits = 4300"

fun parse_digits :: "int \<Rightarrow> string \<Rightarrow> py_error + int" where
  "parse_digits acc [] = Inr acc"
| "parse_digits acc (c # cs) =
     (if is_digit c then parse_digits (acc * 10 + digit_val c) cs
      else if c = CHR ''_'' then
        (case cs of
           [] \<Rightarrow> Inl ValueError
         | d # ds \<Rightarrow>
             if is_digit d then parse_digits (acc * 10 + digit_val d) ds
             else Inl ValueError)
      else Inl ValueError)"

definition py_int :: "string \<Rightarrow> py_error + int" where
  "py_int s =
     (let t = rev (dropWhile int_isspace (rev (dropWhile int_isspace s)));
          (sign, body) =
            (case t of
               c # cs \<Rightarrow>
                 if c = CHR ''-'' then (- 1, cs)
                 else if c = CHR ''+'' then (1, cs)
                 else (1, t)
             | [] \<Rightarrow> (1, t))
      in case body of
           [] \<Rightarrow> Inl ValueError
         | c # cs \<Rightarrow>
             if \<not> is_digit c then Inl ValueError
             else if int_max_str_digits < length (filter is_digit body)
               then Inl ValueError
             else (case parse_digits 0 body of
                     Inl e \<Rightarrow> Inl e
                   | Inr n \<Rightarrow> Inr (sign * n)))"

section \<open>\<open>get_cell_text\<close>\<close>

definition get_cell_text :: "element \<Rightarrow> string" where
  "get_cell_text cell =
     (case find_el ''Data'' cell of
        None \<Rightarrow> ''''
      | Some data \<Rightarrow>
          (case elem_text data of
             None \<Rightarrow> ''''
           | Some t \<Rightarrow> strip t))"

section \<open>\<open>parse_rows\<close>\<close>

text \<open>
  The gap-filling loop \<open>while current_col < target_col\<close>, on the pair of the row's
  value list and the column cursor. Python's integers are unbounded: \<open>int\<close>.
\<close>

function fill_gaps :: "string list \<Rightarrow> int \<Rightarrow> int \<Rightarrow> string list \<times> int" where
  "fill_gaps vals current_col target_col =
     (if current_col < target_col
      then fill_gaps (vals @ ['''']) (current_col + 1) target_col
      else (vals, current_col))"
  by pat_completeness auto
termination
  by (relation "measure (\<lambda>(vals, current_col, target_col). nat (target_col - current_col))") auto

declare fill_gaps.simps [simp del]

text \<open>The body of the loop over the cells of one row.\<close>

definition parse_cell :: "string list \<times> int \<Rightarrow> element \<Rightarrow> string list \<times> int" where
  "parse_cell st cell =
     (let (vals, current_col) = st;
          (vals1, col1) =
            (case get_attr cell (qname ''Index'') of
               None \<Rightarrow> (vals, current_col)
             | Some idx \<Rightarrow>
                 (let target_col =
                        (case py_int idx of
                           Inr n \<Rightarrow> n
                         | Inl ValueError \<Rightarrow> current_col)
                  in fill_gaps vals current_col target_col))
      in (vals1 @ [get_cell_text cell], col1 + 1))"

fun parse_cells :: "string list \<times> int \<Rightarrow> element list \<Rightarrow> string list \<times> int" where
  "parse_cells st [] = st"
| "parse_cells st (cell # cells) = parse_cells (parse_cell st cell) cells"

text \<open>One iteration of the loop over rows: the value list built for a \<open>Row\<close>.\<close>

definition parse_row :: "element \<Rightarrow> string list" where
  "parse_row row = fst (parse_cells ([], 1) (findall ''Cell'' row))"

fun rows_loop :: "string list list \<Rightarrow> element list \<Rightarrow> string list list" where
  "rows_loop rows_out [] = rows_out"
| "rows_loop rows_out (row # rows) = rows_loop (rows_out @ [parse_row row]) rows"

definition parse_rows :: "element \<Rightarrow> string list list" where
  "parse_rows table = rows_loop [] (findall ''Row'' table)"

section \<open>\<open>main\<close>\<close>

text \<open>
  What \<open>main\<close> finds at the path typed by the user: nothing that is a regular file,
  a file on which \<open>ET.parse\<close> raises \<open>ParseError\<close> (with the message of the
  exception), or a file that parses to a tree with the given root.
\<close>

datatype xml_file = NotFound | Malformed string | Parsed element

text \<open>
  What a run leaves behind: the value returned to \<open>SystemExit\<close>, the lines printed
  to the error stream and to the standard output, and the rows handed to the CSV
  writer of \<open>output.csv\<close> (\<open>None\<close> when the file is never opened).
\<close>

record outcome =
  exit_status :: int
  stderr_lines :: "string list"
  stdout_lines :: "string list"
  output_csv :: "string list list option"

definition fail :: "string \<Rightarrow> outcome" where
  "fail msg =
     \<lparr>exit_status = 2, stderr_lines = [msg], stdout_lines = [], output_csv = None\<rparr>"

text \<open>The decimal text of a natural number, as an f-string renders \<open>len(normalized)\<close>.\<close>

fun str_nat :: "nat \<Rightarrow> string" where
  "str_nat n =
     (if n < 10 then [char_of (48 + n)]
      else str_nat (n div 10) @ [char_of (48 + n mod 10)])"

declare str_nat.simps [simp del]

text \<open>The body of the normalisation loop, for one data row \<open>r\<close>.\<close>

definition normalize_row :: "nat \<Rightarrow> string list \<Rightarrow> string list" where
  "normalize_row header_len r =
     (if length r < header_len then r @ replicate (header_len - length r) ''''
      else if length r > header_len then take header_len r
      else r)"

fun normalize_loop :: "nat \<Rightarrow> string list list \<Rightarrow> string list list \<Rightarrow> string list list" where
  "normalize_loop header_len normalized [] = normalized"
| "normalize_loop header_len normalized (r # data_rows) =
     normalize_loop header_len (normalized @ [normalize_row header_len r]) data_rows"

text \<open>
  \<open>main\<close>, given the text of \<open>xml_path\<close>, the text of the path of \<open>output.csv\<close> in
  the working directory, and what is found at \<open>xml_path\<close>.
\<close>

definition main :: "string \<Rightarrow> string \<Rightarrow> xml_file \<Rightarrow> outcome" where
  "main xml_path out_csv file =
     (case file of
        NotFound \<Rightarrow> fail (''Error: file not found: '' @ xml_path)
      | Malformed e \<Rightarrow> fail (''Error: failed to parse XML: '' @ e)
      | Parsed root \<Rightarrow>
          (case find_el ''Worksheet'' root of
             None \<Rightarrow>
               fail ''Error: couldn't find <Worksheet> in this SpreadsheetML file.''
           | Some worksheet \<Rightarrow>
               (case find_el ''Table'' worksheet of
                  None \<Rightarrow> fail ''Error: couldn't find <Table> inside the worksheet.''
                | Some table \<Rightarrow>
                    (case parse_rows table of
                       [] \<Rightarrow> fail ''Error: no rows found in the table.''
                     | headers # data_rows \<Rightarrow>
                         (let header_len = length headers;
                              normalized = normalize_loop header_len [] data_rows
                          in \<lparr>exit_status = 0,
                              stderr_lines = [],
                              stdout_lines =
                                [''Done. Wrote '' @ str_nat (length normalized)
                                   @ '' rows to '' @ out_csv],
                              output_csv = Some (headers # normalized)\<rparr>)))))"

section \<open>\<open>parse_rows\<close> with a bound on the size of a list\<close>

text \<open>
  \<open>list.append\<close> raises \<open>MemoryError\<close> when the list cannot grow. The bound \<open>cap\<close>
  is the number of items a list can hold: an append to a list that already holds
  \<open>cap\<close> items raises. \<open>parse_rows\<close> catches \<open>ValueError\<close> only, so a
  \<open>MemoryError\<close> leaves it. The functions below are the loops of \<open>parse_rows\<close>
  again, with the three appends (\<open>values.append("")\<close>, \<open>values.append(text)\<close>,
  \<open>rows_out.append(values)\<close>) able to raise; only the growth of the lists is
  counted.
\<close>

datatype py_exception = MemoryError

text \<open>
  On a 64-bit platform CPython refuses to give a list more than
  \<open>PY_SSIZE_T_MAX / sizeof(PyObject *)\<close> items, whatever memory the machine has;
  a machine's memory ends earlier.
\<close>

definition list_max_items :: nat where
  "list_max_items = (2 ^ 63 - 1) div 8"

definition append_mem :: "nat \<Rightarrow> 'a list \<Rightarrow> 'a \<Rightarrow> py_exception + 'a list" where
  "append_mem cap xs x = (if length xs < cap then Inr (xs @ [x]) else Inl MemoryError)"

function fill_gaps_mem ::
  "nat \<Rightarrow> string list \<Rightarrow> int \<Rightarrow> int \<Rightarrow> py_exception + string list \<times> int" where
  "fill_gaps_mem cap vals current_col target_col =
     (if current_col < target_col
      then (case append_mem cap vals '''' of
              Inl e \<Rightarrow> Inl e
            | Inr vals1 \<Rightarrow> fill_gaps_mem cap vals1 (current_col + 1) target_col)
      else Inr (vals, current_col))"
  by pat_completeness auto
termination
  by (relation "measure (\<lambda>(cap, vals, current_col, target_col). nat (target_col - current_col))")
    auto

declare fill_gaps_mem.simps [simp del]

definition parse_cell_mem ::
  "nat \<Rightarrow> string list \<times> int \<Rightarrow> element \<Rightarrow> py_exception + string list \<times> int" where
  "parse_cell_mem cap st cell =
     (let (vals, current_col) = st
      in case (case get_attr cell (qname ''Index'') of
                 None \<Rightarrow> Inr (vals, current_col)
               | Some idx \<Rightarrow>
                   (let target_col =
                          (case py_int idx of
                             Inr n \<Rightarrow> n
                           | Inl ValueError \<Rightarrow> current_col)
                    in fill_gaps_mem cap vals current_col target_col)) of
           Inl e \<Rightarrow> Inl e
         | Inr (vals1, col1) \<Rightarrow>
             (case append_mem cap vals1 (get_cell_text cell) of
                Inl e \<Rightarrow> Inl e
              | Inr vals2 \<Rightarrow> Inr (vals2, col1 + 1)))"

fun parse_cells_mem ::
  "nat \<Rightarrow> string list \<times> int \<Rightarrow> element list \<Rightarrow> py_exception + string list \<times> int" where
  "parse_cells_mem cap st [] = Inr st"
| "parse_cells_mem cap st (cell # cells) =
     (case parse_cell_mem cap st cell of
        Inl e \<Rightarrow> Inl e
      | Inr st1 \<Rightarrow> parse_cells_mem cap st1 cells)"

definition parse_row_mem :: "nat \<Rightarrow> element \<Rightarrow> py_exception + string list" where
  "parse_row_mem cap row =
     (case parse_cells_mem cap ([], 1) (findall ''Cell'' row) of
        Inl e \<Rightarrow> Inl e
      | Inr st \<Rightarrow> Inr (fst st))"

fun rows_loop_mem ::
  "nat \<Rightarrow> string list list \<Rightarrow> element list \<Rightarrow> py_exception + string list list" where
  "rows_loop_mem cap rows_out [] = Inr rows_out"
| "rows_loop_mem cap rows_out (row # rows) =
     (case parse_row_mem cap row of
        Inl e \<Rightarrow> Inl e
      | Inr vals \<Rightarrow>
          (case append_mem cap rows_out vals of
             Inl e \<Rightarrow> Inl e
           | Inr rows_out1 \<Rightarrow> rows_loop_mem cap rows_out1 rows))"

definition parse_rows_mem :: "nat \<Rightarrow> element \<Rightarrow> py_exception + string list list" where
  "parse_rows_mem cap table = rows_loop_mem cap [] (findall ''Row'' table)"

section \<open>Example documents\<close>

definition data_el :: "string \<Rightarrow> element" where
  "data_el t = Element (qname ''Data'') Map.empty (Some t) []"

definition cell_el :: "(string \<rightharpoonup> string) \<Rightarrow> element list \<Rightarrow> element" where
  "cell_el attrs kids = Element (qname ''Cell'') attrs None kids"

definition row_el :: "element list \<Rightarrow> element" where
  "row_el cells = Element (qname ''Row'') Map.empty None cells"

definition table_el :: "element list \<Rightarrow> element" where
  "table_el rows = Element (qname ''Table'') Map.empty None rows"

definition worksheet_el :: "element list \<Rightarrow> element" where
  "worksheet_el kids = Element (qname ''Worksheet'') Map.empty None kids"

definition workbook_el :: "element list \<Rightarrow> element" where
  "workbook_el kids = Element (qname ''Workbook'') Map.empty None kids"

definition scenario_B_row :: element where
  "scenario_B_row =
     row_el [cell_el [qname ''Index'' \<mapsto> ''1''] [data_el ''A''],
             cell_el [qname ''Index'' \<mapsto> ''3''] [data_el ''C'']]"

definition scenario_A_table :: element where
  "scenario_A_table =
     table_el [row_el [cell_el Map.empty [data_el ''Name''],
                       cell_el Map.empty [data_el ''Age'']]]"

definition out_of_order_row :: element where
  "out_of_order_row =
     row_el [cell_el [qname ''Index'' \<mapsto> ''3''] [data_el ''C''],
             cell_el [qname ''Index'' \<mapsto> ''1''] [data_el ''A'']]"

definition scenario_F_row :: element where
  "scenario_F_row =
     row_el [cell_el Map.empty [data_el ''x''],
             cell_el [qname ''Index'' \<mapsto> ''abc''] [data_el ''y'']]"

definition scenario_E_root :: element where
  "scenario_E_root = workbook_el [worksheet_el [table_el []]]"

definition first_table :: element where
  "first_table =
     table_el [row_el [cell_el Map.empty [data_el ''h'']],
               row_el [cell_el Map.empty [data_el ''1'']]]"

definition first_worksheet :: element where
  "first_worksheet =
     worksheet_el
       [Element (qname ''Names'') Map.empty None [],
        first_table,
        table_el [row_el [cell_el Map.empty [data_el ''other'']]]]"

definition two_sheets_root :: element where
  "two_sheets_root =
     workbook_el
       [Element (qname ''Styles'') Map.empty None [],
        first_worksheet,
        worksheet_el [table_el [row_el [cell_el Map.empty [data_el ''second'']]]]]"

definition bare_cell :: element where
  "bare_cell = cell_el [qname ''Index'' \<mapsto> ''-5''] []"

definition empty_data_cell :: element where
  "empty_data_cell =
     cell_el [qname ''Index'' \<mapsto> ''abc''] [Element (qname ''Data'') Map.empty None []]"

definition huge_index_cell :: element where
  "huge_index_cell = cell_el [qname ''Index'' \<mapsto> ''2000000000000000000''] [data_el ''x'']"

definition odd_index_table :: element where
  "odd_index_table = table_el [row_el [bare_cell, empty_data_cell]]"

lemmas example_defs =
  data_el_def cell_el_def row_el_def table_el_def worksheet_el_def workbook_el_def

lemmas model_defs =
  qname_def NS_ss_def find_el_def findall_def get_attr_def
  py_isspace_def strip_def int_isspace_def is_digit_def digit_val_def
  int_max_str_digits_def py_int_def get_cell_text_def

section \<open>The loops in closed form\<close>

lemma fill_gaps_eq:
  "fill_gaps vals current_col target_col =
     (vals @ replicate (nat (target_col - current_col)) '''', max current_col target_col)"
proof (induction vals current_col target_col rule: fill_gaps.induct)
  case (1 vals current_col target_col)
  show ?case
  proof (cases "current_col < target_col")
    case True
    then have n: "nat (target_col - current_col) = Suc (nat (target_col - (current_col + 1)))"
      by simp
    from True "1" show ?thesis
      by (subst fill_gaps.simps) (simp add: n)
  next
    case False
    then show ?thesis
      by (subst fill_gaps.simps) simp
  qed
qed

lemma parse_cell_no_index:
  "get_attr cell (qname ''Index'') = None \<Longrightarrow>
   parse_cell (vals, cur) cell = (vals @ [get_cell_text cell], cur + 1)"
  by (simp add: parse_cell_def)

lemma parse_cell_bad_index:
  "get_attr cell (qname ''Index'') = Some idx \<Longrightarrow> py_int idx = Inl e \<Longrightarrow>
   parse_cell (vals, cur) cell = (vals @ [get_cell_text cell], cur + 1)"
  by (cases e) (simp add: parse_cell_def fill_gaps_eq)

lemma parse_cell_index:
  "get_attr cell (qname ''Index'') = Some idx \<Longrightarrow> py_int idx = Inr n \<Longrightarrow>
   parse_cell (vals, cur) cell =
     (vals @ replicate (nat (n - cur)) '''' @ [get_cell_text cell], max cur n + 1)"
  by (simp add: parse_cell_def fill_gaps_eq)

lemma parse_cell_shape:
  "\<exists>k. parse_cell (vals, cur) cell =
     (vals @ replicate k '''' @ [get_cell_text cell], cur + int k + 1)"
proof (cases "get_attr cell (qname ''Index'')")
  case None
  then have "parse_cell (vals, cur) cell =
      (vals @ replicate 0 '''' @ [get_cell_text cell], cur + int 0 + 1)"
    by (simp add: parse_cell_no_index)
  then show ?thesis by blast
next
  case (Some idx)
  show ?thesis
  proof (cases "py_int idx")
    case (Inl e)
    with Some have "parse_cell (vals, cur) cell =
        (vals @ replicate 0 '''' @ [get_cell_text cell], cur + int 0 + 1)"
      by (simp add: parse_cell_bad_index)
    then show ?thesis by blast
  next
    case (Inr n)
    have "max cur n = cur + int (nat (n - cur))" by simp
    with Some Inr have "parse_cell (vals, cur) cell =
        (vals @ replicate (nat (n - cur)) '''' @ [get_cell_text cell],
         cur + int (nat (n - cur)) + 1)"
      by (simp add: parse_cell_index)
    then show ?thesis by blast
  qed
qed

lemma parse_cells_append:
  "parse_cells st (xs @ ys) = parse_cells (parse_cells st xs) ys"
  by (induction xs arbitrary: st) simp_all

lemma parse_cells_shape:
  "\<exists>ws. parse_cells (vals, cur) cells = (vals @ ws, cur + int (length ws)) \<and>
     length cells \<le> length ws"
proof (induction cells arbitrary: vals cur)
  case Nil
  then show ?case by simp
next
  case (Cons c cells)
  obtain k where k: "parse_cell (vals, cur) c =
      (vals @ replicate k '''' @ [get_cell_text c], cur + int k + 1)"
    using parse_cell_shape by blast
  obtain ws where ws:
    "parse_cells (vals @ replicate k '''' @ [get_cell_text c], cur + int k + 1) cells
      = ((vals @ replicate k '''' @ [get_cell_text c]) @ ws,
         (cur + int k + 1) + int (length ws))"
    "length cells \<le> length ws"
    using Cons.IH by blast
  let ?ws = "replicate k '''' @ [get_cell_text c] @ ws"
  have "parse_cells (vals, cur) (c # cells) = (vals @ ?ws, cur + int (length ?ws))"
    using k ws(1) by simp
  moreover have "length (c # cells) \<le> length ?ws"
    using ws(2) by simp
  ultimately show ?case by blast
qed

lemma parse_cells_no_index:
  "\<forall>c \<in> set cells. get_attr c (qname ''Index'') = None \<Longrightarrow>
   parse_cells (vals, cur) cells = (vals @ map get_cell_text cells, cur + int (length cells))"
  by (induction cells arbitrary: vals cur) (simp_all add: parse_cell_no_index)

lemma rows_loop_eq: "rows_loop rows_out rows = rows_out @ map parse_row rows"
  by (induction rows arbitrary: rows_out) simp_all

lemma parse_rows_eq: "parse_rows table = map parse_row (findall ''Row'' table)"
  by (simp add: parse_rows_def rows_loop_eq)

lemma normalize_loop_eq:
  "normalize_loop header_len normalized data_rows =
     normalized @ map (normalize_row header_len) data_rows"
  by (induction data_rows arbitrary: normalized) simp_all

lemma length_normalize_row: "length (normalize_row header_len r) = header_len"
  by (simp add: normalize_row_def)

lemma find_first:
  "\<forall>e \<in> set pre. \<not> P e \<Longrightarrow> P x \<Longrightarrow> List.find P (pre @ x # post) = Some x"
  by (induction pre) simp_all

section \<open>The bounded loops against the unbounded ones\<close>

lemma fill_gaps_mem_eq:
  "length vals \<le> cap \<Longrightarrow>
   fill_gaps_mem cap vals current_col target_col =
     (if length vals + nat (target_col - current_col) \<le> cap
      then Inr (fill_gaps vals current_col target_col) else Inl MemoryError)"
proof (induction cap vals current_col target_col rule: fill_gaps_mem.induct)
  case (1 cap vals current_col target_col)
  show ?case
  proof (cases "current_col < target_col")
    case False
    with "1.prems" show ?thesis
      by (subst fill_gaps_mem.simps, subst fill_gaps.simps) simp
  next
    case True
    then have n: "nat (target_col - current_col) = Suc (nat (target_col - (current_col + 1)))"
      by simp
    show ?thesis
    proof (cases "length vals < cap")
      case full: False
      with True "1.prems" n show ?thesis
        by (subst fill_gaps_mem.simps) (simp add: append_mem_def)
    next
      case room: True
      then have a: "append_mem cap vals '''' = Inr (vals @ [''''])"
        by (simp add: append_mem_def)
      have "fill_gaps_mem cap (vals @ ['''']) (current_col + 1) target_col =
          (if length (vals @ ['''']) + nat (target_col - (current_col + 1)) \<le> cap
           then Inr (fill_gaps (vals @ ['''']) (current_col + 1) target_col)
           else Inl MemoryError)"
        using "1.IH" [OF True a] room by simp
      with True a n show ?thesis
        by (subst fill_gaps_mem.simps, subst fill_gaps.simps) simp
    qed
  qed
qed

lemma parse_cell_mem_eq:
  assumes "length vals \<le> cap"
  shows "parse_cell_mem cap (vals, cur) cell =
     (if length (fst (parse_cell (vals, cur) cell)) \<le> cap
      then Inr (parse_cell (vals, cur) cell) else Inl MemoryError)"
proof (cases "get_attr cell (qname ''Index'')")
  case None
  then show ?thesis
    by (simp add: parse_cell_mem_def parse_cell_def append_mem_def)
next
  case (Some idx)
  define target_col where
    "target_col = (case py_int idx of Inr n \<Rightarrow> n | Inl ValueError \<Rightarrow> cur)"
  have pure: "parse_cell (vals, cur) cell =
      (vals @ replicate (nat (target_col - cur)) '''' @ [get_cell_text cell],
       max cur target_col + 1)"
    using Some by (simp add: parse_cell_def target_col_def fill_gaps_eq)
  have mem: "parse_cell_mem cap (vals, cur) cell =
      (case fill_gaps_mem cap vals cur target_col of
         Inl e \<Rightarrow> Inl e
       | Inr (vals1, col1) \<Rightarrow>
           (case append_mem cap vals1 (get_cell_text cell) of
              Inl e \<Rightarrow> Inl e
            | Inr vals2 \<Rightarrow> Inr (vals2, col1 + 1)))"
    using Some by (simp add: parse_cell_mem_def target_col_def)
  show ?thesis
    unfolding mem pure
    by (simp add: fill_gaps_mem_eq [OF assms] fill_gaps_eq append_mem_def)
qed

lemma parse_cells_grows:
  "length vals \<le> length (fst (parse_cells (vals, cur) cells))"
proof -
  obtain ws where "parse_cells (vals, cur) cells = (vals @ ws, cur + int (length ws))"
    using parse_cells_shape by blast
  then show ?thesis by simp
qed

lemma parse_cells_mem_eq:
  "length vals \<le> cap \<Longrightarrow>
   parse_cells_mem cap (vals, cur) cells =
     (if length (fst (parse_cells (vals, cur) cells)) \<le> cap
      then Inr (parse_cells (vals, cur) cells) else Inl MemoryError)"
proof (induction cells arbitrary: vals cur)
  case Nil
  then show ?case by simp
next
  case (Cons c cells)
  obtain vals1 col1 where step: "parse_cell (vals, cur) c = (vals1, col1)"
    by (cases "parse_cell (vals, cur) c")
  have grows: "length vals1 \<le> length (fst (parse_cells (vals1, col1) cells))"
    by (rule parse_cells_grows)
  show ?case
  proof (cases "length vals1 \<le> cap")
    case True
    then have "parse_cell_mem cap (vals, cur) c = Inr (vals1, col1)"
      using parse_cell_mem_eq [OF Cons.prems, of cur c] step by simp
    with Cons.IH [OF True, of col1] step show ?thesis
      by simp
  next
    case False
    then have "parse_cell_mem cap (vals, cur) c = Inl MemoryError"
      using parse_cell_mem_eq [OF Cons.prems, of cur c] step by simp
    moreover have "\<not> length (fst (parse_cells (vals1, col1) cells)) \<le> cap"
      using False grows by simp
    ultimately show ?thesis
      using step by simp
  qed
qed

lemma parse_row_mem_eq:
  "parse_row_mem cap row =
     (if length (parse_row row) \<le> cap then Inr (parse_row row) else Inl MemoryError)"
  by (simp add: parse_row_mem_def parse_row_def parse_cells_mem_eq)

lemma rows_loop_mem_eq:
  "length rows_out \<le> cap \<Longrightarrow>
   rows_loop_mem cap rows_out rows =
     (if (\<forall>row \<in> set rows. length (parse_row row) \<le> cap) \<and>
         length rows_out + length rows \<le> cap
      then Inr (rows_out @ map parse_row rows) else Inl MemoryError)"
proof (induction rows arbitrary: rows_out)
  case Nil
  then show ?case by simp
next
  case (Cons row rows)
  show ?case
  proof (cases "length (parse_row row) \<le> cap \<and> length rows_out < cap")
    case True
    then have "length (rows_out @ [parse_row row]) \<le> cap"
      by simp
    from Cons.IH [OF this] True show ?thesis
      by (simp add: parse_row_mem_eq append_mem_def)
  next
    case False
    then show ?thesis
      by (auto simp: parse_row_mem_eq append_mem_def)
  qed
qed

lemma parse_rows_mem_eq:
  "parse_rows_mem cap table =
     (if (\<forall>row \<in> set (findall ''Row'' table). length (parse_row row) \<le> cap) \<and>
         length (findall ''Row'' table) \<le> cap
      then Inr (parse_rows table) else Inl MemoryError)"
  by (simp add: parse_rows_mem_def rows_loop_mem_eq parse_rows_eq)

lemma parse_cells_index_bound:
  assumes "\<forall>c \<in> set cells. \<forall>idx n.
      get_attr c (qname ''Index'') = Some idx \<longrightarrow> py_int idx = Inr n \<longrightarrow> n \<le> bound"
    and "cur \<le> bound + 1 + int k"
  shows "snd (parse_cells (vals, cur) cells) \<le> bound + 1 + int k + int (length cells)"
  using assms
proof (induction cells arbitrary: vals cur k)
  case Nil
  then show ?case by simp
next
  case (Cons c cells)
  obtain vals1 col1 where step: "parse_cell (vals, cur) c = (vals1, col1)"
    by (cases "parse_cell (vals, cur) c")
  have "col1 \<le> bound + 1 + int (Suc k)"
  proof (cases "get_attr c (qname ''Index'')")
    case None
    with step Cons.prems(2) show ?thesis
      by (simp add: parse_cell_no_index)
  next
    case (Some idx)
    show ?thesis
    proof (cases "py_int idx")
      case (Inl e)
      with Some step Cons.prems(2) show ?thesis
        by (simp add: parse_cell_bad_index)
    next
      case (Inr n)
      with Some Cons.prems(1) have "n \<le> bound" by simp
      with Some Inr step Cons.prems(2) show ?thesis
        by (auto simp: parse_cell_index)
    qed
  qed
  moreover have "\<forall>c \<in> set cells. \<forall>idx n.
      get_attr c (qname ''Index'') = Some idx \<longrightarrow> py_int idx = Inr n \<longrightarrow> n \<le> bound"
    using Cons.prems(1) by simp
  ultimately have "snd (parse_cells (vals1, col1) cells)
      \<le> bound + 1 + int (Suc k) + int (length cells)"
    by (rule Cons.IH [rotated])
  with step show ?case by simp
qed

lemma parse_row_index_bound:
  assumes "\<forall>c \<in> set (findall ''Cell'' row). \<forall>idx n.
      get_attr c (qname ''Index'') = Some idx \<longrightarrow> py_int idx = Inr n \<longrightarrow> n \<le> int bound"
  shows "length (parse_row row) \<le> bound + length (findall ''Cell'' row)"
proof -
  obtain ws where ws: "parse_cells ([], 1) (findall ''Cell'' row) = ([] @ ws, 1 + int (length ws))"
    using parse_cells_shape by blast
  have "snd (parse_cells ([], 1) (findall ''Cell'' row))
      \<le> int bound + 1 + int 0 + int (length (findall ''Cell'' row))"
    by (rule parse_cells_index_bound [OF assms]) simp
  with ws show ?thesis
    by (simp add: parse_row_def)
qed

lemma parse_cells_low_index:
  assumes "\<forall>c \<in> set cells. \<forall>idx n.
      get_attr c (qname ''Index'') = Some idx \<longrightarrow> py_int idx = Inr n \<longrightarrow> n \<le> 1"
    and "1 \<le> cur"
  shows "parse_cells (vals, cur) cells
      = (vals @ map get_cell_text cells, cur + int (length cells))"
  using assms
proof (induction cells arbitrary: vals cur)
  case Nil
  then show ?case by simp
next
  case (Cons c cells)
  have step: "parse_cell (vals, cur) c = (vals @ [get_cell_text c], cur + 1)"
  proof (cases "get_attr c (qname ''Index'')")
    case None
    then show ?thesis by (simp add: parse_cell_no_index)
  next
    case (Some idx)
    show ?thesis
    proof (cases "py_int idx")
      case (Inl e)
      with Some show ?thesis by (simp add: parse_cell_bad_index)
    next
      case (Inr n)
      with Some Cons.prems(1) have "n \<le> 1" by simp
      with Some Inr Cons.prems(2) show ?thesis
        by (simp add: parse_cell_index)
    qed
  qed
  have "parse_cells (vals @ [get_cell_text c], cur + 1) cells
      = ((vals @ [get_cell_text c]) @ map get_cell_text cells, (cur + 1) + int (length cells))"
    using Cons.prems by (intro Cons.IH) simp_all
  with step show ?case by simp
qed

lemma parse_row_low_index:
  assumes "\<forall>c \<in> set (findall ''Cell'' row). \<forall>idx n.
      get_attr c (qname ''Index'') = Some idx \<longrightarrow> py_int idx = Inr n \<longrightarrow> n \<le> 1"
  shows "parse_row row = map get_cell_text (findall ''Cell'' row)"
  using parse_cells_low_index [OF assms, of 1 "[]"] by (simp add: parse_row_def)

section \<open>Row reconstruction\<close>

text \<open>
  C1. The row with the cells (index 1, text A) and (index 3, text C) is
  reconstructed by \<open>parse_rows\<close> as A, empty, C. In general a cell whose index
  parses to a column strictly beyond the cursor first gets one empty string for
  every skipped column, and then its text.
\<close>

theorem gap_fill_scenario_B:
  "parse_rows (table_el [scenario_B_row]) = [[''A'', '''', ''C'']] \<and>
   (get_attr cell (qname ''Index'') = Some idx \<and> py_int idx = Inr n \<and> cur < n \<longrightarrow>
      parse_cell (vals, cur) cell =
        (vals @ replicate (nat (n - cur)) '''' @ [get_cell_text cell], n + 1))"
proof -
  have "parse_rows (table_el [scenario_B_row]) = [[''A'', '''', ''C'']]"
    by (simp add: parse_rows_eq parse_row_def scenario_B_row_def example_defs
        parse_cell_def fill_gaps_eq model_defs)
  moreover have "parse_cell (vals, cur) cell =
        (vals @ replicate (nat (n - cur)) '''' @ [get_cell_text cell], n + 1)"
    if "get_attr cell (qname ''Index'') = Some idx" "py_int idx = Inr n" "cur < n"
    using that by (simp add: parse_cell_index)
  ultimately show ?thesis by blast
qed

theorem gap_fill_scenario_B_witness:
  "get_attr (cell_el [qname ''Index'' \<mapsto> ''3''] [data_el ''C'']) (qname ''Index'') = Some ''3'' \<and>
   py_int ''3'' = Inr 3 \<and> (2::int) < 3 \<and>
   parse_cell ([''A''], 2) (cell_el [qname ''Index'' \<mapsto> ''3''] [data_el ''C''])
     = ([''A'', '''', ''C''], 4)"
proof -
  let ?c = "cell_el [qname ''Index'' \<mapsto> ''3''] [data_el ''C'']"
  have h1: "get_attr ?c (qname ''Index'') = Some ''3''"
    by (simp add: example_defs get_attr_def)
  have h2: "py_int ''3'' = Inr 3"
    by (simp add: model_defs)
  have h3: "(2::int) < 3" by simp
  have t: "get_cell_text ?c = ''C''"
    by (simp add: example_defs model_defs)
  from gap_fill_scenario_B [where cell = ?c and idx = "''3''" and n = 3 and cur = 2
      and vals = "[''A'']"] h1 h2 h3
  have "parse_cell ([''A''], 2) ?c =
      ([''A''] @ replicate (nat (3 - 2)) '''' @ [get_cell_text ?c], 3 + 1)"
    by blast
  then have "parse_cell ([''A''], 2) ?c = ([''A'', '''', ''C''], 4)"
    by (simp add: t)
  with h1 h2 h3 show ?thesis by blast
qed

text \<open>
  C2. A row of the table in which no cell has an \<open>Index\<close> attribute is reconstructed
  as the texts of its cells (what \<open>get_cell_text\<close> returns for each), in source
  order and with nothing added.
\<close>

theorem parse_rows_no_index:
  assumes "i < length (findall ''Row'' table)"
    and "\<forall>c \<in> set (findall ''Cell'' (findall ''Row'' table ! i)).
           get_attr c (qname ''Index'') = None"
  shows "parse_rows table ! i = map get_cell_text (findall ''Cell'' (findall ''Row'' table ! i))"
proof -
  have "parse_rows table ! i = parse_row (findall ''Row'' table ! i)"
    using assms(1) by (simp add: parse_rows_eq)
  also have "\<dots> = map get_cell_text (findall ''Cell'' (findall ''Row'' table ! i))"
    using parse_cells_no_index [OF assms(2), of "[]" 1] by (simp add: parse_row_def)
  finally show ?thesis .
qed

theorem parse_rows_no_index_witness:
  "0 < length (findall ''Row'' scenario_A_table) \<and>
   map (\<lambda>c. get_attr c (qname ''Index''))
     (findall ''Cell'' (findall ''Row'' scenario_A_table ! 0)) = [None, None] \<and>
   parse_rows scenario_A_table ! 0 = [''Name'', ''Age'']"
proof -
  have h1: "0 < length (findall ''Row'' scenario_A_table)"
    by (simp add: scenario_A_table_def example_defs model_defs)
  have h2: "\<forall>c \<in> set (findall ''Cell'' (findall ''Row'' scenario_A_table ! 0)).
      get_attr c (qname ''Index'') = None"
    by (simp add: scenario_A_table_def example_defs model_defs)
  have "map get_cell_text (findall ''Cell'' (findall ''Row'' scenario_A_table ! 0))
      = [''Name'', ''Age'']"
    by (simp add: scenario_A_table_def example_defs model_defs)
  with parse_rows_no_index [OF h1 h2] have "parse_rows scenario_A_table ! 0 = [''Name'', ''Age'']"
    by simp
  moreover have "map (\<lambda>c. get_attr c (qname ''Index''))
      (findall ''Cell'' (findall ''Row'' scenario_A_table ! 0)) = [None, None]"
    by (simp add: scenario_A_table_def example_defs model_defs)
  ultimately show ?thesis using h1 by blast
qed

text \<open>
  C4. The cursor starts at 1 and moves by one for every string appended, so the
  reconstructed row is as long as the final cursor value minus 1.
\<close>

theorem row_length_final_cursor:
  assumes "parse_cells ([], 1) (findall ''Cell'' row) = (vals, final_col)"
  shows "parse_row row = vals \<and> int (length (parse_row row)) = final_col - 1"
proof -
  obtain ws where "parse_cells ([], 1) (findall ''Cell'' row) = ([] @ ws, 1 + int (length ws))"
    using parse_cells_shape by blast
  then have "(vals, final_col) = (ws, 1 + int (length ws))"
    using assms by simp
  then have "int (length vals) = final_col - 1"
    by simp
  moreover have "parse_row row = vals"
    using assms by (simp add: parse_row_def)
  ultimately show ?thesis by simp
qed

theorem row_length_final_cursor_witness:
  "parse_cells ([], 1) (findall ''Cell'' scenario_B_row) = ([''A'', '''', ''C''], 4) \<and>
   parse_row scenario_B_row = [''A'', '''', ''C''] \<and>
   int (length (parse_row scenario_B_row)) = 4 - 1"
proof -
  have h: "parse_cells ([], 1) (findall ''Cell'' scenario_B_row) = ([''A'', '''', ''C''], 4)"
    by (simp add: scenario_B_row_def example_defs parse_cell_def fill_gaps_eq model_defs)
  from row_length_final_cursor [OF h] h show ?thesis by blast
qed

text \<open>
  C3. A cell whose index parses to a column strictly before the cursor gets no
  gap-fill: its text is appended at the cursor. In the reconstructed row the
  values built before the cell stay where they were, the text stands at the
  cursor's column, and the cursor only moves forward.
\<close>

theorem index_below_cursor:
  assumes "findall ''Cell'' row = pre @ cell # post"
    and "parse_cells ([], 1) pre = (vals, cur)"
    and "get_attr cell (qname ''Index'') = Some idx"
    and "py_int idx = Inr n"
    and "n < cur"
  shows "parse_cell (vals, cur) cell = (vals @ [get_cell_text cell], cur + 1) \<and>
         take (length vals) (parse_row row) = vals \<and>
         parse_row row ! nat (cur - 1) = get_cell_text cell \<and>
         cur + 1 \<le> snd (parse_cells ([], 1) (findall ''Cell'' row))"
proof -
  have step: "parse_cell (vals, cur) cell = (vals @ [get_cell_text cell], cur + 1)"
    using assms(3-5) by (simp add: parse_cell_index)
  obtain vs where "parse_cells ([], 1) pre = ([] @ vs, 1 + int (length vs))"
    using parse_cells_shape by blast
  with assms(2) have len: "nat (cur - 1) = length vals"
    by auto
  obtain ws where ws: "parse_cells (vals @ [get_cell_text cell], cur + 1) post =
      ((vals @ [get_cell_text cell]) @ ws, (cur + 1) + int (length ws))"
    using parse_cells_shape by blast
  have all: "parse_cells ([], 1) (findall ''Cell'' row) =
      (vals @ [get_cell_text cell] @ ws, (cur + 1) + int (length ws))"
    using assms(1,2) step ws by (simp add: parse_cells_append)
  then have row: "parse_row row = vals @ [get_cell_text cell] @ ws"
    by (simp add: parse_row_def)
  have "take (length vals) (parse_row row) = vals"
    by (simp add: row)
  moreover have "parse_row row ! nat (cur - 1) = get_cell_text cell"
    by (simp add: row len)
  moreover have "cur + 1 \<le> snd (parse_cells ([], 1) (findall ''Cell'' row))"
    by (simp add: all)
  ultimately show ?thesis using step by blast
qed

theorem index_below_cursor_witness:
  "findall ''Cell'' out_of_order_row =
     [cell_el [qname ''Index'' \<mapsto> ''3''] [data_el ''C'']]
       @ cell_el [qname ''Index'' \<mapsto> ''1''] [data_el ''A''] # [] \<and>
   parse_cells ([], 1) [cell_el [qname ''Index'' \<mapsto> ''3''] [data_el ''C'']]
     = (['''', '''', ''C''], 4) \<and>
   py_int ''1'' = Inr 1 \<and> (1::int) < 4 \<and>
   parse_cell (['''', '''', ''C''], 4) (cell_el [qname ''Index'' \<mapsto> ''1''] [data_el ''A''])
     = (['''', '''', ''C'', ''A''], 5) \<and>
   take 3 (parse_row out_of_order_row) = ['''', '''', ''C''] \<and>
   parse_row out_of_order_row ! 3 = ''A''"
proof -
  let ?c3 = "cell_el [qname ''Index'' \<mapsto> ''3''] [data_el ''C'']"
  let ?c1 = "cell_el [qname ''Index'' \<mapsto> ''1''] [data_el ''A'']"
  have h1: "findall ''Cell'' out_of_order_row = [?c3] @ ?c1 # []"
    by (simp add: out_of_order_row_def example_defs model_defs)
  have h2: "parse_cells ([], 1) [?c3] = (['''', '''', ''C''], 4)"
    by (simp add: example_defs parse_cell_def fill_gaps_eq model_defs eval_nat_numeral)
  have h3: "get_attr ?c1 (qname ''Index'') = Some ''1''"
    by (simp add: example_defs get_attr_def)
  have h4: "py_int ''1'' = Inr 1"
    by (simp add: model_defs)
  have h5: "(1::int) < 4" by simp
  have t: "get_cell_text ?c1 = ''A''"
    by (simp add: example_defs model_defs)
  from index_below_cursor [OF h1 h2 h3 h4 h5] t
  have "parse_cell (['''', '''', ''C''], 4) ?c1 = (['''', '''', ''C'', ''A''], 5)"
    and "take 3 (parse_row out_of_order_row) = ['''', '''', ''C'']"
    and "parse_row out_of_order_row ! 3 = ''A''"
    by (simp_all add: numeral_3_eq_3)
  with h1 h2 h4 h5 show ?thesis by blast
qed

text \<open>
  C5. An \<open>Index\<close> attribute on which \<open>int\<close> raises \<open>ValueError\<close> is caught: the cell
  step appends the text at the cursor with no gap-fill, and the row is reconstructed
  exactly as the same row with that attribute removed from the cell.
\<close>

theorem malformed_index_ignored:
  assumes "children row = kpre @ cell # kpost"
    and "get_attr cell (qname ''Index'') = Some idx"
    and "py_int idx = Inl ValueError"
  shows "parse_cell (vals, cur) cell = (vals @ [get_cell_text cell], cur + 1) \<and>
         parse_row (Element (tag row) (attrib row) (elem_text row)
           (kpre @ Element (tag cell) ((attrib cell)(qname ''Index'' := None))
                     (elem_text cell) (children cell) # kpost))
           = parse_row row"
proof -
  let ?cell' = "Element (tag cell) ((attrib cell)(qname ''Index'' := None))
                  (elem_text cell) (children cell)"
  have step: "parse_cell st cell = (fst st @ [get_cell_text cell], snd st + 1)" for st
    using parse_cell_bad_index [OF assms(2,3), of "fst st" "snd st"] by simp
  have same: "parse_cell st (Element t ((attrib cell)(qname ''Index'' := None)) x (children cell))
      = parse_cell st cell" for st t x
  proof -
    let ?c = "Element t ((attrib cell)(qname ''Index'' := None)) x (children cell)"
    have "get_attr ?c (qname ''Index'') = None"
      by (simp add: get_attr_def)
    then have "parse_cell st ?c = (fst st @ [get_cell_text ?c], snd st + 1)"
      using parse_cell_no_index [of ?c "fst st" "snd st"] by simp
    moreover have "get_cell_text ?c = get_cell_text cell"
      by (simp add: get_cell_text_def find_el_def)
    ultimately show ?thesis
      by (simp add: step)
  qed
  have "parse_cells ([], 1) (filter (\<lambda>c. tag c = qname ''Cell'') (kpre @ ?cell' # kpost)) =
        parse_cells ([], 1) (filter (\<lambda>c. tag c = qname ''Cell'') (kpre @ cell # kpost))"
    by (cases "tag cell = qname ''Cell''") (simp_all add: parse_cells_append same)
  then have "parse_row (Element (tag row) (attrib row) (elem_text row) (kpre @ ?cell' # kpost))
      = parse_row row"
    using assms(1) by (simp add: parse_row_def findall_def)
  with step [of "(vals, cur)"] show ?thesis by simp
qed

theorem malformed_index_ignored_witness:
  "children scenario_F_row =
     [cell_el Map.empty [data_el ''x'']] @ cell_el [qname ''Index'' \<mapsto> ''abc''] [data_el ''y''] # [] \<and>
   py_int ''abc'' = Inl ValueError \<and>
   parse_cell ([''x''], 2) (cell_el [qname ''Index'' \<mapsto> ''abc''] [data_el ''y''])
     = ([''x'', ''y''], 3) \<and>
   parse_row scenario_F_row = [''x'', ''y'']"
proof -
  let ?c1 = "cell_el Map.empty [data_el ''x'']"
  let ?c2 = "cell_el [qname ''Index'' \<mapsto> ''abc''] [data_el ''y'']"
  have h1: "children scenario_F_row = [?c1] @ ?c2 # []"
    by (simp add: scenario_F_row_def example_defs)
  have h2: "get_attr ?c2 (qname ''Index'') = Some ''abc''"
    by (simp add: example_defs get_attr_def)
  have h3: "py_int ''abc'' = Inl ValueError"
    by (simp add: model_defs)
  have t: "get_cell_text ?c2 = ''y''"
    by (simp add: example_defs model_defs)
  have r: "parse_row (Element (tag scenario_F_row) (attrib scenario_F_row)
        (elem_text scenario_F_row)
        ([?c1] @ Element (tag ?c2) ((attrib ?c2)(qname ''Index'' := None))
                   (elem_text ?c2) (children ?c2) # [])) = [''x'', ''y'']"
    by (simp add: scenario_F_row_def example_defs parse_row_def parse_cell_def model_defs)
  from malformed_index_ignored [OF h1 h2 h3, of "[''x'']" 2] t r
  have "parse_cell ([''x''], 2) ?c2 = ([''x'', ''y''], 3)"
    and "parse_row scenario_F_row = [''x'', ''y'']"
    by simp_all
  with h1 h3 show ?thesis by blast
qed

section \<open>Normalisation to the header width\<close>

text \<open>
  C6. With N the length of the header row, the normalisation loop maps every data
  row to a row of exactly N entries: a shorter row is padded on the right with
  empty strings, a longer row is cut to its first N entries, a row of N entries is
  kept. The loop is defined on every list of rows.
\<close>

theorem normalize_to_header_width:
  "normalize_loop (length headers) [] data_rows
     = map (normalize_row (length headers)) data_rows \<and>
   length (normalize_row (length headers) r) = length headers \<and>
   (length r < length headers \<longrightarrow>
      normalize_row (length headers) r = r @ replicate (length headers - length r) '''') \<and>
   (length r > length headers \<longrightarrow>
      normalize_row (length headers) r = take (length headers) r) \<and>
   (length r = length headers \<longrightarrow> normalize_row (length headers) r = r)"
proof -
  have "normalize_loop (length headers) [] data_rows
      = map (normalize_row (length headers)) data_rows"
    by (simp add: normalize_loop_eq)
  moreover have "length (normalize_row (length headers) r) = length headers"
    by (rule length_normalize_row)
  moreover have "length r < length headers \<longrightarrow>
      normalize_row (length headers) r = r @ replicate (length headers - length r) ''''"
    by (simp add: normalize_row_def)
  moreover have "length r > length headers \<longrightarrow>
      normalize_row (length headers) r = take (length headers) r"
    by (simp add: normalize_row_def)
  moreover have "length r = length headers \<longrightarrow> normalize_row (length headers) r = r"
    by (simp add: normalize_row_def)
  ultimately show ?thesis by blast
qed

theorem normalize_to_header_width_witness:
  "normalize_row (length [''a'', ''b'', ''c'']) [''x''] = [''x'', '''', ''''] \<and>
   normalize_row (length [''a'']) [''x'', ''y''] = [''x''] \<and>
   normalize_row (length [''a'', ''b'']) [''x'', ''y''] = [''x'', ''y''] \<and>
   normalize_loop (length [''a'', ''b'']) [] [[''x''], [''x'', ''y'', ''z'']]
     = [normalize_row (length [''a'', ''b'']) [''x''],
        normalize_row (length [''a'', ''b'']) [''x'', ''y'', ''z'']]"
proof -
  have "normalize_row (length [''a'', ''b'', ''c'']) [''x''] = [''x'', '''', '''']"
    using normalize_to_header_width [of "[''a'', ''b'', ''c'']" "[]" "[''x'']"]
    by (simp add: eval_nat_numeral)
  moreover have "normalize_row (length [''a'']) [''x'', ''y''] = [''x'']"
    using normalize_to_header_width [of "[''a'']" "[]" "[''x'', ''y'']"]
    by simp
  moreover have "normalize_row (length [''a'', ''b'']) [''x'', ''y''] = [''x'', ''y'']"
    using normalize_to_header_width [of "[''a'', ''b'']" "[]" "[''x'', ''y'']"]
    by simp
  moreover have "normalize_loop (length [''a'', ''b'']) [] [[''x''], [''x'', ''y'', ''z'']]
     = [normalize_row (length [''a'', ''b'']) [''x''],
        normalize_row (length [''a'', ''b'']) [''x'', ''y'', ''z'']]"
    using normalize_to_header_width [of "[''a'', ''b'']" "[[''x''], [''x'', ''y'', ''z'']]" "[]"]
    by simp
  ultimately show ?thesis by blast
qed

text \<open>
  C7. Normalisation is idempotent: a row that already has the header's length is
  returned unchanged, so normalising a normalised row, or the whole list of
  normalised rows, against the same headers changes nothing.
\<close>

theorem normalize_idempotent:
  "(length r = length headers \<longrightarrow> normalize_row (length headers) r = r) \<and>
   normalize_row (length headers) (normalize_row (length headers) r)
     = normalize_row (length headers) r \<and>
   normalize_loop (length headers) [] (normalize_loop (length headers) [] data_rows)
     = normalize_loop (length headers) [] data_rows"
proof -
  have fixed: "normalize_row n s = s" if "length s = n" for n s
    using that by (simp add: normalize_row_def)
  have twice: "normalize_row n (normalize_row n s) = normalize_row n s" for n s
    by (rule fixed) (rule length_normalize_row)
  have "normalize_loop n [] (normalize_loop n [] rows) = normalize_loop n [] rows" for n rows
    by (simp add: normalize_loop_eq twice)
  with fixed twice show ?thesis by blast
qed

theorem normalize_idempotent_witness:
  "length [''x'', '''', ''''] = length [''a'', ''b'', ''c''] \<and>
   normalize_row (length [''a'', ''b'', ''c'']) [''x'', '''', ''''] = [''x'', '''', '''']"
  using normalize_idempotent [of "[''x'', '''', '''']" "[''a'', ''b'', ''c'']" "[]"]
  by simp

section \<open>The run as a whole\<close>

text \<open>
  C8. When the first table of the first worksheet has no \<open>Row\<close> child, the run
  prints the one line \<open>Error: no rows found in the table.\<close> to the error stream,
  returns the exit status 2, and never opens \<open>output.csv\<close>.
\<close>

theorem no_rows_is_an_error:
  assumes "find_el ''Worksheet'' root = Some worksheet"
    and "find_el ''Table'' worksheet = Some table"
    and "findall ''Row'' table = []"
  shows "main xml_path out_csv (Parsed root) =
           \<lparr>exit_status = 2,
            stderr_lines = [''Error: no rows found in the table.''],
            stdout_lines = [],
            output_csv = None\<rparr> \<and>
         exit_status (main xml_path out_csv (Parsed root)) \<noteq> 0 \<and>
         length (stderr_lines (main xml_path out_csv (Parsed root))) = 1 \<and>
         output_csv (main xml_path out_csv (Parsed root)) = None"
proof -
  have "parse_rows table = []"
    using assms(3) by (simp add: parse_rows_eq)
  with assms(1,2) have "main xml_path out_csv (Parsed root) =
      \<lparr>exit_status = 2, stderr_lines = [''Error: no rows found in the table.''],
       stdout_lines = [], output_csv = None\<rparr>"
    by (simp add: main_def fail_def)
  then show ?thesis by simp
qed

theorem no_rows_is_an_error_witness:
  "find_el ''Worksheet'' scenario_E_root = Some (worksheet_el [table_el []]) \<and>
   find_el ''Table'' (worksheet_el [table_el []]) = Some (table_el []) \<and>
   findall ''Row'' (table_el []) = [] \<and>
   main ''in.xml'' ''output.csv'' (Parsed scenario_E_root) =
     \<lparr>exit_status = 2,
      stderr_lines = [''Error: no rows found in the table.''],
      stdout_lines = [],
      output_csv = None\<rparr>"
proof -
  have h1: "find_el ''Worksheet'' scenario_E_root = Some (worksheet_el [table_el []])"
    by (simp add: scenario_E_root_def example_defs find_el_def)
  have h2: "find_el ''Table'' (worksheet_el [table_el []]) = Some (table_el [])"
    by (simp add: example_defs find_el_def)
  have h3: "findall ''Row'' (table_el []) = []"
    by (simp add: example_defs findall_def)
  from no_rows_is_an_error [OF h1 h2 h3, of "''in.xml''" "''output.csv''"] h1 h2 h3
  show ?thesis by blast
qed

text \<open>
  C10. Only the first \<open>Worksheet\<close> child of the root and the first \<open>Table\<close> child
  of that worksheet are converted: whatever else stands before or after them,
  other worksheets and tables included, the run ends as it does on the document
  that holds this one table alone.
\<close>

theorem first_worksheet_first_table:
  assumes "children root = pre @ worksheet # post"
    and "\<forall>e \<in> set pre. tag e \<noteq> qname ''Worksheet''"
    and "tag worksheet = qname ''Worksheet''"
    and "children worksheet = pre' @ table # post'"
    and "\<forall>e \<in> set pre'. tag e \<noteq> qname ''Table''"
    and "tag table = qname ''Table''"
  shows "main xml_path out_csv (Parsed root)
           = main xml_path out_csv (Parsed (workbook_el [worksheet_el [table]]))"
proof -
  have "find_el ''Worksheet'' root = Some worksheet"
    using assms(1-3) by (simp add: find_el_def find_first)
  moreover have "find_el ''Table'' worksheet = Some table"
    using assms(4-6) by (simp add: find_el_def find_first)
  moreover have "find_el ''Worksheet'' (workbook_el [worksheet_el [table]])
      = Some (worksheet_el [table])"
    by (simp add: find_el_def workbook_el_def worksheet_el_def)
  moreover have "find_el ''Table'' (worksheet_el [table]) = Some table"
    using assms(6) by (simp add: find_el_def worksheet_el_def)
  ultimately show ?thesis
    by (simp add: main_def)
qed

theorem first_worksheet_first_table_witness:
  "children two_sheets_root =
     [Element (qname ''Styles'') Map.empty None []] @ first_worksheet
       # [worksheet_el [table_el [row_el [cell_el Map.empty [data_el ''second'']]]]] \<and>
   children first_worksheet =
     [Element (qname ''Names'') Map.empty None []] @ first_table
       # [table_el [row_el [cell_el Map.empty [data_el ''other'']]]] \<and>
   main ''in.xml'' ''output.csv'' (Parsed two_sheets_root)
     = main ''in.xml'' ''output.csv'' (Parsed (workbook_el [worksheet_el [first_table]])) \<and>
   main ''in.xml'' ''output.csv'' (Parsed (workbook_el [worksheet_el [first_table]])) =
     \<lparr>exit_status = 0,
      stderr_lines = [],
      stdout_lines = [''Done. Wrote 1 rows to output.csv''],
      output_csv = Some [[''h''], [''1'']]\<rparr>"
proof -
  let ?styles = "Element (qname ''Styles'') Map.empty None []"
  let ?names = "Element (qname ''Names'') Map.empty None []"
  let ?ws2 = "worksheet_el [table_el [row_el [cell_el Map.empty [data_el ''second'']]]]"
  let ?tb2 = "table_el [row_el [cell_el Map.empty [data_el ''other'']]]"
  have h1: "children two_sheets_root = [?styles] @ first_worksheet # [?ws2]"
    by (simp add: two_sheets_root_def workbook_el_def)
  have h2: "\<forall>e \<in> set [?styles]. tag e \<noteq> qname ''Worksheet''"
    by (simp add: qname_def)
  have h3: "tag first_worksheet = qname ''Worksheet''"
    by (simp add: first_worksheet_def worksheet_el_def)
  have h4: "children first_worksheet = [?names] @ first_table # [?tb2]"
    by (simp add: first_worksheet_def worksheet_el_def)
  have h5: "\<forall>e \<in> set [?names]. tag e \<noteq> qname ''Table''"
    by (simp add: qname_def)
  have h6: "tag first_table = qname ''Table''"
    by (simp add: first_table_def table_el_def)
  have rows: "parse_rows first_table = [[''h''], [''1'']]"
    by (simp add: first_table_def parse_rows_eq parse_row_def parse_cell_def
        example_defs model_defs)
  have one: "str_nat (Suc 0) = ''1''"
    by code_simp
  have out: "main ''in.xml'' ''output.csv'' (Parsed (workbook_el [worksheet_el [first_table]])) =
     \<lparr>exit_status = 0, stderr_lines = [],
      stdout_lines = [''Done. Wrote 1 rows to output.csv''],
      output_csv = Some [[''h''], [''1'']]\<rparr>"
    by (simp add: main_def find_el_def workbook_el_def worksheet_el_def h6 rows
        normalize_row_def one)
  from first_worksheet_first_table [OF h1 h2 h3 h4 h5 h6, of "''in.xml''" "''output.csv''"]
    h1 h4 out
  show ?thesis by blast
qed

section \<open>When \<open>parse_rows\<close> returns\<close>

text \<open>
  Against C9 as first stated (a result for an arbitrarily large index): an
  \<open>Index\<close> of 2000000000000000000 parses, and the gap-filling loop then asks
  for more items than a list can ever hold: \<open>parse_rows\<close> ends in the
  \<open>MemoryError\<close> of \<open>append\<close>, which nothing catches.
\<close>

theorem huge_index_raises:
  "py_int ''2000000000000000000'' = Inr 2000000000000000000 \<and>
   parse_rows_mem list_max_items (table_el [row_el [huge_index_cell]]) = Inl MemoryError"
proof -
  have p: "py_int ''2000000000000000000'' = Inr 2000000000000000000"
    by (simp add: model_defs)
  have f: "findall ''Row'' (table_el [row_el [huge_index_cell]]) = [row_el [huge_index_cell]]"
    by (simp add: table_el_def row_el_def findall_def)
  have c: "findall ''Cell'' (row_el [huge_index_cell]) = [huge_index_cell]"
    by (simp add: huge_index_cell_def cell_el_def row_el_def findall_def)
  have a: "get_attr huge_index_cell (qname ''Index'') = Some ''2000000000000000000''"
    by (simp add: huge_index_cell_def cell_el_def get_attr_def)
  have "length (parse_row (row_el [huge_index_cell])) = 2000000000000000000"
    by (simp add: parse_row_def c parse_cell_index [OF a p])
  then have "\<not> length (parse_row (row_el [huge_index_cell])) \<le> list_max_items"
    by (simp add: list_max_items_def)
  then have "parse_rows_mem list_max_items (table_el [row_el [huge_index_cell]]) = Inl MemoryError"
    by (simp add: parse_rows_mem_eq f)
  with p show ?thesis by simp
qed

text \<open>
  C9, amended. \<open>parse_rows\<close> ends on every table. It returns its rows, one list of
  strings for each \<open>Row\<close> child and the same rows as the unbounded loops build,
  exactly when every reconstructed row and the list of rows fit in a list;
  otherwise it ends in \<open>MemoryError\<close>. It returns in particular when every index
  that parses is at most a bound which, added to the number of cells of the row,
  fits. The \<open>ValueError\<close> of \<open>int\<close> is caught: where every index that parses is at
  most 1 (zero and negative ones included; an index that does not parse counts
  as none) each row is the list of its cells' texts, empty for a cell without
  \<open>Data\<close> or without text in it. A cell step with an index at or before the cursor
  appends the text at the cursor.
\<close>

theorem parse_rows_returns_within_capacity:
  "parse_rows_mem cap table =
     (if (\<forall>row \<in> set (findall ''Row'' table). length (parse_row row) \<le> cap) \<and>
         length (findall ''Row'' table) \<le> cap
      then Inr (parse_rows table) else Inl MemoryError) \<and>
   ((\<forall>row \<in> set (findall ''Row'' table).
        (\<forall>c \<in> set (findall ''Cell'' row). \<forall>idx n.
           get_attr c (qname ''Index'') = Some idx \<longrightarrow> py_int idx = Inr n \<longrightarrow> n \<le> int bound) \<and>
        bound + length (findall ''Cell'' row) \<le> cap) \<and>
     length (findall ''Row'' table) \<le> cap \<longrightarrow>
      parse_rows_mem cap table = Inr (parse_rows table) \<and>
      length (parse_rows table) = length (findall ''Row'' table)) \<and>
   ((\<forall>row \<in> set (findall ''Row'' table).
        (\<forall>c \<in> set (findall ''Cell'' row). \<forall>idx n.
           get_attr c (qname ''Index'') = Some idx \<longrightarrow> py_int idx = Inr n \<longrightarrow> n \<le> 1) \<and>
        length (findall ''Cell'' row) \<le> cap) \<and>
     length (findall ''Row'' table) \<le> cap \<longrightarrow>
      parse_rows_mem cap table
        = Inr (map (\<lambda>row. map get_cell_text (findall ''Cell'' row)) (findall ''Row'' table))) \<and>
   (get_attr cell (qname ''Index'') = Some idx \<and> py_int idx = Inr n \<and> n \<le> cur \<and>
      length vals < cap \<longrightarrow>
      parse_cell_mem cap (vals, cur) cell = Inr (vals @ [get_cell_text cell], cur + 1)) \<and>
   (find_el ''Data'' cell = None \<longrightarrow> get_cell_text cell = '''') \<and>
   (find_el ''Data'' cell = Some d \<and> elem_text d = None \<longrightarrow> get_cell_text cell = '''')"
proof -
  let ?rows = "findall ''Row'' table"
  have exact: "parse_rows_mem cap table =
     (if (\<forall>row \<in> set ?rows. length (parse_row row) \<le> cap) \<and> length ?rows \<le> cap
      then Inr (parse_rows table) else Inl MemoryError)"
    by (rule parse_rows_mem_eq)
  have bounded: "parse_rows_mem cap table = Inr (parse_rows table) \<and>
      length (parse_rows table) = length ?rows"
    if h: "(\<forall>row \<in> set ?rows.
        (\<forall>c \<in> set (findall ''Cell'' row). \<forall>idx n.
           get_attr c (qname ''Index'') = Some idx \<longrightarrow> py_int idx = Inr n \<longrightarrow> n \<le> int bound) \<and>
        bound + length (findall ''Cell'' row) \<le> cap) \<and> length ?rows \<le> cap"
  proof -
    have "length (parse_row row) \<le> cap" if "row \<in> set ?rows" for row
    proof -
      from h that have
        b: "\<forall>c \<in> set (findall ''Cell'' row). \<forall>idx n.
           get_attr c (qname ''Index'') = Some idx \<longrightarrow> py_int idx = Inr n \<longrightarrow> n \<le> int bound"
        and fits: "bound + length (findall ''Cell'' row) \<le> cap"
        by blast+
      from parse_row_index_bound [OF b] fits show ?thesis
        by simp
    qed
    with h show ?thesis
      by (simp add: exact parse_rows_eq)
  qed
  have low: "parse_rows_mem cap table
        = Inr (map (\<lambda>row. map get_cell_text (findall ''Cell'' row)) ?rows)"
    if h: "(\<forall>row \<in> set ?rows.
        (\<forall>c \<in> set (findall ''Cell'' row). \<forall>idx n.
           get_attr c (qname ''Index'') = Some idx \<longrightarrow> py_int idx = Inr n \<longrightarrow> n \<le> 1) \<and>
        length (findall ''Cell'' row) \<le> cap) \<and> length ?rows \<le> cap"
  proof -
    have r: "parse_row row = map get_cell_text (findall ''Cell'' row)"
      if "row \<in> set ?rows" for row
      using h that by (intro parse_row_low_index) blast
    then have "length (parse_row row) \<le> cap" if "row \<in> set ?rows" for row
      using h that by simp
    moreover have "map parse_row ?rows
        = map (\<lambda>row. map get_cell_text (findall ''Cell'' row)) ?rows"
      using r by simp
    ultimately show ?thesis
      using h by (simp add: exact parse_rows_eq)
  qed
  have step: "parse_cell_mem cap (vals, cur) cell = Inr (vals @ [get_cell_text cell], cur + 1)"
    if "get_attr cell (qname ''Index'') = Some idx \<and> py_int idx = Inr n \<and> n \<le> cur \<and>
      length vals < cap"
  proof -
    from that have "parse_cell (vals, cur) cell = (vals @ [get_cell_text cell], cur + 1)"
      by (simp add: parse_cell_index)
    moreover from that have "length vals \<le> cap" by simp
    ultimately show ?thesis
      using that by (simp add: parse_cell_mem_eq)
  qed
  have d1: "find_el ''Data'' cell = None \<longrightarrow> get_cell_text cell = ''''"
    by (simp add: get_cell_text_def)
  have d2: "find_el ''Data'' cell = Some d \<and> elem_text d = None \<longrightarrow> get_cell_text cell = ''''"
    by (simp add: get_cell_text_def)
  from exact bounded low step d1 d2 show ?thesis
    by blast
qed

theorem parse_rows_returns_within_capacity_witness:
  "parse_rows_mem list_max_items odd_index_table = Inr [['''', '''']] \<and>
   parse_rows_mem list_max_items (table_el [scenario_B_row]) = Inr [[''A'', '''', ''C'']] \<and>
   py_int ''-5'' = Inr (- 5) \<and> (- 5 :: int) \<le> 1 \<and>
   parse_cell_mem list_max_items ([], 1) bare_cell = Inr ([''''], 2) \<and>
   find_el ''Data'' bare_cell = None \<and>
   find_el ''Data'' empty_data_cell = Some (Element (qname ''Data'') Map.empty None []) \<and>
   get_cell_text empty_data_cell = ''''"
proof -
  let ?d = "Element (qname ''Data'') Map.empty None []"
  have a1: "get_attr bare_cell (qname ''Index'') = Some ''-5''"
    by (simp add: bare_cell_def cell_el_def get_attr_def)
  have a2: "get_attr empty_data_cell (qname ''Index'') = Some ''abc''"
    by (simp add: empty_data_cell_def cell_el_def get_attr_def)
  have p1: "py_int ''-5'' = Inr (- 5)"
    by (simp add: model_defs)
  have p2: "py_int ''abc'' = Inl ValueError"
    by (simp add: model_defs)
  have d1: "find_el ''Data'' bare_cell = None"
    by (simp add: bare_cell_def cell_el_def find_el_def)
  have d2: "find_el ''Data'' empty_data_cell = Some ?d"
    by (simp add: empty_data_cell_def cell_el_def find_el_def)
  have rows: "findall ''Row'' odd_index_table = [row_el [bare_cell, empty_data_cell]]"
    by (simp add: odd_index_table_def table_el_def row_el_def findall_def)
  have cells: "findall ''Cell'' (row_el [bare_cell, empty_data_cell])
      = [bare_cell, empty_data_cell]"
    by (simp add: bare_cell_def empty_data_cell_def cell_el_def row_el_def findall_def)
  have big: "2 \<le> list_max_items"
    by (simp add: list_max_items_def)
  have rowsB: "findall ''Row'' (table_el [scenario_B_row]) = [scenario_B_row]"
    by (simp add: table_el_def scenario_B_row_def row_el_def findall_def)
  have cellsB: "map (\<lambda>c. get_attr c (qname ''Index'')) (findall ''Cell'' scenario_B_row)
      = [Some ''1'', Some ''3'']"
    by (simp add: scenario_B_row_def example_defs model_defs)
  have valB: "parse_rows (table_el [scenario_B_row]) = [[''A'', '''', ''C'']]"
    by (simp add: parse_rows_eq parse_row_def scenario_B_row_def example_defs
        parse_cell_def fill_gaps_eq model_defs)
  note t1 = parse_rows_returns_within_capacity [where cap = list_max_items
      and table = odd_index_table and cell = bare_cell and idx = "''-5''" and n = "- 5"
      and cur = 1 and vals = "[]"]
  note t2 = parse_rows_returns_within_capacity [where cap = list_max_items
      and table = "table_el [scenario_B_row]" and bound = 3]
  note t3 = parse_rows_returns_within_capacity [where cell = empty_data_cell and d = ?d]
  have low: "\<forall>row \<in> set (findall ''Row'' odd_index_table).
        (\<forall>c \<in> set (findall ''Cell'' row). \<forall>idx n.
           get_attr c (qname ''Index'') = Some idx \<longrightarrow> py_int idx = Inr n \<longrightarrow> n \<le> 1) \<and>
        length (findall ''Cell'' row) \<le> list_max_items"
    using big by (simp add: rows cells a1 a2 p1 p2)
  have nrows: "length (findall ''Row'' odd_index_table) \<le> list_max_items"
    using big by (simp add: rows)
  have r1: "parse_rows_mem list_max_items odd_index_table = Inr [['''', '''']]"
  proof -
    from t1 [THEN conjunct2, THEN conjunct2, THEN conjunct1] low nrows
    have "parse_rows_mem list_max_items odd_index_table
        = Inr (map (\<lambda>row. map get_cell_text (findall ''Cell'' row))
            (findall ''Row'' odd_index_table))"
      by blast
    then show ?thesis
      by (simp add: rows cells get_cell_text_def d1 d2)
  qed
  have bnd: "\<forall>row \<in> set (findall ''Row'' (table_el [scenario_B_row])).
        (\<forall>c \<in> set (findall ''Cell'' row). \<forall>idx n.
           get_attr c (qname ''Index'') = Some idx \<longrightarrow> py_int idx = Inr n \<longrightarrow> n \<le> int 3) \<and>
        3 + length (findall ''Cell'' row) \<le> list_max_items"
    by (simp add: rowsB scenario_B_row_def example_defs model_defs list_max_items_def)
  have nrowsB: "length (findall ''Row'' (table_el [scenario_B_row])) \<le> list_max_items"
    using big by (simp add: rowsB)
  have r2: "parse_rows_mem list_max_items (table_el [scenario_B_row]) = Inr [[''A'', '''', ''C'']]"
  proof -
    from t2 [THEN conjunct2, THEN conjunct1] bnd nrowsB
    have "parse_rows_mem list_max_items (table_el [scenario_B_row])
        = Inr (parse_rows (table_el [scenario_B_row]))"
      by blast
    then show ?thesis
      by (simp add: valB)
  qed
  have room: "length ([] :: string list) < list_max_items"
    by (simp add: list_max_items_def)
  have le: "(- 5 :: int) \<le> 1"
    by simp
  have r3: "parse_cell_mem list_max_items ([], 1) bare_cell = Inr ([''''], 2)"
  proof -
    from t1 [THEN conjunct2, THEN conjunct2, THEN conjunct2, THEN conjunct1] a1 p1 le room
    have "parse_cell_mem list_max_items ([], 1) bare_cell
        = Inr ([] @ [get_cell_text bare_cell], 1 + 1)"
      by blast
    then show ?thesis
      by (simp add: get_cell_text_def d1)
  qed
  have r4: "get_cell_text empty_data_cell = ''''"
  proof -
    have "elem_text ?d = None" by simp
    with t3 [THEN conjunct2, THEN conjunct2, THEN conjunct2, THEN conjunct2, THEN conjunct2] d2
    show ?thesis by blast
  qed
  from r1 r2 r3 r4 p1 d1 d2 show ?thesis
    by simp
qed

end
